theory Spec2Isabelle
  imports Complex_Main "HOL-Library.AList"
begin

section \<open>The decoder of strongsup (src/strongsup/decoder.py)\<close>

text \<open>
  A shallow embedding of the class \<open>Decoder\<close>. Python objects are records, the
  dictionary \<open>_predicate2index\<close> is an association list in insertion order, every
  \<open>raise\<close> and every failing built-in operation is a value \<open>Inl e\<close> of a sum type.
  The external collaborators (exploration policies, case weighter, value function,
  scoring model) are functions held in records; their parameter updates are events
  appended to a trace.

  Floating point numbers (\<open>log_prob\<close>, \<open>score\<close>, case weights, embeddings) are
  idealised as reals: no rounding, no overflow. Only the results of numpy's division are
  kept apart (\<open>npfloat\<close>), because numpy divides by zero without raising.
\<close>

subsection \<open>Errors\<close>

datatype error =
    ValueError string
  | AssertionError
  | UnboundLocalError string
  | KeyError string
  | IndexError
  | TypeError
  | AttributeError

subsection \<open>Data model\<close>

text \<open>\<open>NormalizationOptions\<close>: two string constants.\<close>

definition LOCAL :: string where
  "LOCAL = ''local''"

definition GLOBAL :: string where
  "GLOBAL = ''global''"

text \<open>A predicate (and a decision, which is a predicate) is identified by its name.\<close>

record predicate =
  name :: string

text \<open>An utterance is a list of tokens (\<open>utter._tokens\<close>).\<close>

record utterance =
  tokens :: "string list"

text \<open>Objects of the world state: \<open>currObject.position\<close>, \<open>currObject.shape\<close>.\<close>

record world_object =
  position :: int
  shape :: string

record world_state =
  all_objects :: "world_object list"

record world =
  initial_state :: world_state

record parse_context =
  utterances :: "utterance list"
  world :: world

text \<open>An example: \<open>example.context\<close>, \<open>example.answer\<close>. The type \<open>'v\<close> is the type of
  denotations.\<close>

record 'v example =
  ex_context :: parse_context
  answer :: 'v

text \<open>
  A parse path is a sequence of parse cases (type \<open>'c\<close>): \<open>len(path)\<close> and
  \<open>for case in path\<close> read \<open>path_cases\<close>. The other fields are the attributes the
  decoder reads.
\<close>

record ('c, 'v) parse_path =
  path_cases :: "'c list"
  log_prob :: real
  score :: real
  path_context :: parse_context
  finalized_denotation :: 'v
  decisions :: "predicate list"
  terminated :: bool

text \<open>A beam is the sequence of its paths (\<open>beam._paths\<close>; \<open>len(beam)\<close> and iteration
  read the same list).\<close>

type_synonym ('c, 'v) beam = "('c, 'v) parse_path list"

text \<open>Modelled from the spec: \<open>Beam.get_terminated\<close> is not in the source file; the spec
  says a beam "exposes the subset of terminated (complete) paths".\<close>

definition get_terminated :: "('c, 'v) beam \<Rightarrow> ('c, 'v) beam" where
  "get_terminated beam = filter terminated beam"

text \<open>An exploration policy, as far as the decoder uses it.\<close>

record ('c, 'v) exploration_policy =
  get_beams :: "'v example list \<Rightarrow> bool \<Rightarrow> ('c, 'v) beam list"
  get_intermediate_beams :: "'v example list \<Rightarrow> bool \<Rightarrow> ('c, 'v) beam list list"

text \<open>The scoring model (\<open>TrainParseModel\<close>): \<open>score_breakdown(cases,
  ignore_previous_utterances, caching)\<close> returns one attention row and one subscore row
  per case. Its \<open>train_step\<close> is an event of the trace.\<close>

record 'c train_parse_model =
  pm_score_breakdown :: "'c list \<Rightarrow> bool \<Rightarrow> bool \<Rightarrow> real list list \<times> real list list list"

type_synonym ('c, 'v) case_weighter = "('c, 'v) beam \<Rightarrow> 'v example \<Rightarrow> real list list"

record config =
  cfg_value_function :: string
  cfg_case_weighter :: string
  inputs_caching :: bool
  cfg_normalization :: string
  cfg_test_exploration_policy :: string
  cfg_train_exploration_policy :: string

record ('c, 'v) domain =
  dom_path_checker :: "('c, 'v) parse_path \<Rightarrow> bool"

text \<open>The fields of a \<open>Decoder\<close> instance. \<open>_tb_logger\<close>, \<open>_class_weight\<close> and the keras
  model \<open>_decomposable\<close> are only used by the CSV trainer and are left out; the call of
  \<open>build_model\<close> is recorded in the trace of the constructor.\<close>

record ('c, 'v, 'vf) decoder =
  glove_embeddings :: "string \<rightharpoonup> real list"
  parse_model :: "'c train_parse_model option"
  value_function :: "'vf option"
  case_weighter :: "('c, 'v) case_weighter option"
  dec_config :: config
  caching :: bool
  path_checker :: "('c, 'v) parse_path \<Rightarrow> bool"
  utter_len :: int
  max_stack_size :: int
  train_step_count :: int
  predicate_embedder_type :: string
  correct_predictions :: int
  all_predictions :: int
  decomposable_data :: "(string \<times> string \<times> int) list option"
  normalization :: string
  predicate2index :: "(string \<times> nat) list"
  test_exploration_policy :: "('c, 'v) exploration_policy"
  train_exploration_policy :: "('c, 'v) exploration_policy"

text \<open>The functions imported from other modules.\<close>

record ('c, 'v, 'vf, 'x) collaborators =
  get_value_function :: "string \<Rightarrow> 'c train_parse_model \<Rightarrow> 'vf"
  get_case_weighter :: "string \<Rightarrow> 'c train_parse_model \<Rightarrow> 'vf \<Rightarrow> ('c, 'v) case_weighter"
  get_exploration_policy :: "string \<Rightarrow> string \<Rightarrow> bool \<Rightarrow> ('c, 'v) exploration_policy"
  check_denotation :: "'v \<Rightarrow> 'v \<Rightarrow> bool"
  examples_from_paths :: "('c, 'v) beam \<Rightarrow> 'v example \<Rightarrow> 'x list"

subsection \<open>Construction\<close>

text \<open>\<open>_build_predicate_dictionary\<close>: a Python dict keeps the position of the first
  insertion of a key and the value of the last, as \<open>AList.update\<close> does.\<close>

definition build_predicate_dictionary :: "predicate list \<Rightarrow> (string \<times> nat) list" where
  "build_predicate_dictionary predicates =
     fold (\<lambda>(i, predicate) predicate_dict. AList.update (name predicate) i predicate_dict)
       (enumerate 0 predicates) []"

text \<open>The calls the constructor makes to other modules, in order.\<close>

type_synonym shape = "int option \<times> int \<times> int"

datatype init_call =
    GetValueFunction string
  | GetCaseWeighter string
  | BuildModel shape shape
  | GetExplorationPolicy string string bool

text \<open>\<open>Decoder.__init__\<close>. The result is the new instance or the error raised, with the
  calls made up to that point.\<close>

definition init ::
  "('c, 'v, 'vf, 'x) collaborators \<Rightarrow> 'c train_parse_model option \<Rightarrow> config \<Rightarrow> ('c, 'v) domain \<Rightarrow>
   (string \<rightharpoonup> real list) \<Rightarrow> predicate list \<Rightarrow> int \<Rightarrow> int \<Rightarrow> string \<Rightarrow>
   (error + ('c, 'v, 'vf) decoder) \<times> init_call list" where
  "init col parse_model_arg cfg domain_arg glove predicates utter_len_arg max_stack_size_arg embedder_type =
     (let (vf, cw, calls1) =
            (case parse_model_arg of
               None \<Rightarrow> (None, None, [])
             | Some pm \<Rightarrow>
                 let vf = get_value_function col (cfg_value_function cfg) pm;
                     cw = get_case_weighter col (cfg_case_weighter cfg) pm vf
                 in (Some vf, Some cw,
                     [GetValueFunction (cfg_value_function cfg),
                      GetCaseWeighter (cfg_case_weighter cfg)]))
      in if cfg_normalization cfg = GLOBAL
         then (Inl (ValueError ''Global normalization is no longer supported.''), calls1)
         else
           let p2i = build_predicate_dictionary predicates;
               shape_utt = (None, 100, 2);
               shape_path = (if embedder_type = ''one_hot''
                             then (None, int (length p2i), 2)
                             else (Some max_stack_size_arg, 96, 2));
               test_policy = get_exploration_policy col (cfg_test_exploration_policy cfg)
                               (cfg_normalization cfg) False;
               train_policy = get_exploration_policy col (cfg_train_exploration_policy cfg)
                               (cfg_normalization cfg) True
           in (Inr \<lparr> glove_embeddings = glove,
                     parse_model = parse_model_arg,
                     value_function = vf,
                     case_weighter = cw,
                     dec_config = cfg,
                     caching = inputs_caching cfg,
                     path_checker = dom_path_checker domain_arg,
                     utter_len = utter_len_arg,
                     max_stack_size = max_stack_size_arg,
                     train_step_count = 0,
                     predicate_embedder_type = embedder_type,
                     correct_predictions = 0,
                     all_predictions = 0,
                     decomposable_data = None,
                     normalization = cfg_normalization cfg,
                     predicate2index = p2i,
                     test_exploration_policy = test_policy,
                     train_exploration_policy = train_policy \<rparr>,
               calls1 @ [BuildModel shape_utt shape_path,
                         GetExplorationPolicy (cfg_test_exploration_policy cfg)
                           (cfg_normalization cfg) False,
                         GetExplorationPolicy (cfg_train_exploration_policy cfg)
                           (cfg_normalization cfg) True]))"

definition predicate_dictionary :: "('c, 'v, 'vf) decoder \<Rightarrow> (string \<times> nat) list" where
  "predicate_dictionary d = predicate2index d"

definition exploration_policy ::
  "('c, 'v, 'vf) decoder \<Rightarrow> bool \<Rightarrow> ('c, 'v) exploration_policy" where
  "exploration_policy d train =
     (if train then train_exploration_policy d else test_exploration_policy d)"

subsection \<open>Probabilities of a beam\<close>

text \<open>The result of a numpy float division: dividing by zero gives \<open>nan\<close> or an
  infinity (with a warning), never an exception.\<close>

datatype npfloat = Finite real | PosInf | NegInf | NaN

definition np_div :: "real \<Rightarrow> real \<Rightarrow> npfloat" where
  "np_div x y =
     (if y \<noteq> 0 then Finite (x / y)
      else if x = 0 then NaN
      else if 0 < x then PosInf
      else NegInf)"

text \<open>\<open>np.min\<close> raises on an empty array.\<close>

fun np_min :: "real list \<Rightarrow> error + real" where
  "np_min [] = Inl (ValueError ''zero-size array to reduction operation minimum which has no identity'')"
| "np_min (x # xs) = Inr (fold min xs x)"

definition get_probs :: "('c, 'v, 'vf) decoder \<Rightarrow> ('c, 'v) beam \<Rightarrow> error + npfloat list" where
  "get_probs d beam =
     (if length beam = 0 then Inr []
      else if normalization d = LOCAL
      then Inr (map (\<lambda>path. Finite (exp (log_prob path))) beam)
      else
        (let stuff = map score beam
         in case np_min stuff of
              Inl e \<Rightarrow> Inl e
            | Inr m \<Rightarrow>
                let stuff = map (\<lambda>s. s - m) stuff
                in Inr (map (\<lambda>s. np_div s (sum_list stuff)) stuff)))"

text \<open>A returned array is a distribution when every entry is a non-negative number and
  the entries sum to 1.\<close>

fun np_value :: "npfloat \<Rightarrow> real option" where
  "np_value (Finite r) = Some r"
| "np_value PosInf = None"
| "np_value NegInf = None"
| "np_value NaN = None"

definition np_nonneg :: "npfloat \<Rightarrow> bool" where
  "np_nonneg p = (case p of Finite r \<Rightarrow> 0 \<le> r | PosInf \<Rightarrow> True | NegInf \<Rightarrow> False | NaN \<Rightarrow> False)"

definition sums_to_one :: "npfloat list \<Rightarrow> bool" where
  "sums_to_one ps = (list_all (\<lambda>p. np_value p \<noteq> None) ps \<and> sum_list (map (\<lambda>p. the (np_value p)) ps) = 1)"

subsection \<open>Prediction\<close>

definition predictions ::
  "('c, 'v, 'vf) decoder \<Rightarrow> 'v example list \<Rightarrow> bool \<Rightarrow> bool \<Rightarrow> ('c, 'v) beam list" where
  "predictions d examples train verbose =
     (let policy = exploration_policy d train;
          beams = get_beams policy examples verbose
      in map get_terminated beams)"

text \<open>\<open>decisions_to_one_hot\<close>: one row per decision. \<open>pred_dict[decision]\<close> raises
  \<open>KeyError\<close> for an unknown name, the assignment into the row of zeros raises
  \<open>IndexError\<close> when the index is not below the row's length (indices are never
  negative).\<close>

definition one_hot_decision :: "(string \<times> nat) list \<Rightarrow> string \<Rightarrow> error + real list" where
  "one_hot_decision pred_dict decision =
     (case map_of pred_dict decision of
        None \<Rightarrow> Inl (KeyError decision)
      | Some k \<Rightarrow>
          if k < length pred_dict
          then Inr ((replicate (length pred_dict) 0)[k := 1])
          else Inl IndexError)"

fun one_hot_rows :: "(string \<times> nat) list \<Rightarrow> string list \<Rightarrow> error + real list list" where
  "one_hot_rows pred_dict [] = Inr []"
| "one_hot_rows pred_dict (decision # rest) =
     (case one_hot_decision pred_dict decision of
        Inl e \<Rightarrow> Inl e
      | Inr row \<Rightarrow>
          (case one_hot_rows pred_dict rest of
             Inl e \<Rightarrow> Inl e
           | Inr rows \<Rightarrow> Inr (row # rows)))"

definition decisions_to_one_hot ::
  "('c, 'v, 'vf) decoder \<Rightarrow> string list \<Rightarrow> error + real list list" where
  "decisions_to_one_hot d decs = one_hot_rows (predicate_dictionary d) decs"

text \<open>A slice \<open>a[lo:hi]\<close> with \<open>0 \<le> lo\<close> and \<open>0 \<le> hi\<close>; Python clips it to the
  sequence.\<close>

definition py_slice :: "'a list \<Rightarrow> nat \<Rightarrow> nat \<Rightarrow> 'a list" where
  "py_slice xs lo hi = drop lo (take hi xs)"

text \<open>The first loop of \<open>score_breakdown\<close>: the flat list of cases and the
  boundaries \<open>cumul\<close>.\<close>

definition flatten_paths :: "('c, 'v) parse_path list \<Rightarrow> nat list \<times> 'c list" where
  "flatten_paths paths =
     fold (\<lambda>path (cumul, cases).
             let cases = cases @ path_cases path
             in (cumul @ [length cases], cases))
       paths ([0], [])"

definition score_breakdown ::
  "('c, 'v, 'vf) decoder \<Rightarrow> ('c, 'v) parse_path list \<Rightarrow>
   error + (real list list list \<times> real list list list list)" where
  "score_breakdown d paths =
     (if length paths = 0 then Inr ([], [])
      else
        let (cumul, cases) = flatten_paths paths
        in case parse_model d of
             None \<Rightarrow> Inl AttributeError
           | Some pm \<Rightarrow>
               let (attentions, subscores) = pm_score_breakdown pm cases False False
               in Inr (map (\<lambda>i. py_slice attentions (cumul ! i) (cumul ! (i + 1))) [0..<length paths],
                       map (\<lambda>i. py_slice subscores (cumul ! i) (cumul ! (i + 1))) [0..<length paths]))"

subsection \<open>The auxiliary batch preparation\<close>

text \<open>\<open>str\<close> of an integer.\<close>

fun str_nat :: "nat \<Rightarrow> string" where
  "str_nat n = (if n < 10 then [char_of (48 + n)] else str_nat (n div 10) @ [char_of (48 + n mod 10)])"

definition str_int :: "int \<Rightarrow> string" where
  "str_int i = (if i < 0 then CHR ''-'' # str_nat (nat (- i)) else str_nat (nat i))"

text \<open>The token loop (lines 328 to 331), over the tokens of all utterances in order. A
  token without an embedding raises \<open>KeyError\<close>.\<close>

fun embed_tokens ::
  "(string \<rightharpoonup> real list) \<Rightarrow> string list \<Rightarrow> real list list \<times> string \<Rightarrow>
   error + (real list list \<times> string)" where
  "embed_tokens glove [] (utter_embds, sentence_for_print) = Inr (utter_embds, sentence_for_print)"
| "embed_tokens glove (token # rest) (utter_embds, sentence_for_print) =
     (case glove token of
        None \<Rightarrow> Inl (KeyError token)
      | Some e \<Rightarrow> embed_tokens glove rest (utter_embds @ [e], sentence_for_print @ token @ '' ''))"

text \<open>Lines 333 and 338 to 341: \<open>np.array\<close> of the embeddings, padded with rows of 100
  zeros up to \<open>utter_len\<close> rows. \<open>np.full\<close> raises on a negative row count;
  \<open>np.concatenate\<close> raises unless the embeddings form a two-dimensional array with 100
  columns (an empty or ragged list of vectors is not two-dimensional). All three are
  \<open>ValueError\<close>; the messages are numpy's.\<close>

definition pad_utterance :: "int \<Rightarrow> real list list \<Rightarrow> error + real list list" where
  "pad_utterance ulen utter_embds =
     (if ulen - int (length utter_embds) < 0
      then Inl (ValueError ''negative dimensions are not allowed'')
      else if utter_embds = [] \<or> (\<exists>e \<in> set utter_embds. length e \<noteq> length (hd utter_embds))
      then Inl (ValueError ''all the input arrays must have same number of dimensions'')
      else if length (hd utter_embds) \<noteq> 100
      then Inl (ValueError ''all the input array dimensions except for the concatenation axis must match exactly'')
      else Inr (utter_embds @ replicate (nat (ulen - int (length utter_embds))) (replicate 100 0)))"

definition world_state_str :: "world_object list \<Rightarrow> string" where
  "world_state_str objects =
     fold (\<lambda>currObject world_state.
             world_state @ '' '' @ str_int (position currObject) @ '':'' @ shape currObject)
       objects []"

text \<open>The lists the routine accumulates over the whole batch. \<open>beam_batch_correct\<close> is
  \<open>None\<close> as long as the local variable is unbound.\<close>

record tdb_state =
  beam_batch_0 :: "real list list list"
  y_hat_batch :: "(int \<times> int) list"
  tdb_decisions :: "string list"
  tdb_utterances :: "string list"
  tdb_world_states :: "string list"
  beam_batch_correct :: "(real list list list \<times> real list list list) option"

text \<open>The body of the loop over the paths of one beam (lines 343 to 368). \<open>y_hat\<close> is
  the two-element list \<open>[0, 0]\<close> with a 1 at \<open>check_denote\<close>, written as a pair.\<close>

definition tdb_path_step ::
  "('c, 'v, 'vf, 'x) collaborators \<Rightarrow> 'v example \<Rightarrow> real list list \<Rightarrow> string \<Rightarrow> string \<Rightarrow>
   nat \<times> ('c, 'v) parse_path \<Rightarrow>
   ('c, 'v, 'vf) decoder \<times> tdb_state \<times> real list list list \<times> nat list \<Rightarrow>
   ('c, 'v, 'vf) decoder \<times> tdb_state \<times> real list list list \<times> nat list" where
  "tdb_path_step col example utter_embds sentence_for_print world_state = (\<lambda>(idx, path) (d, st, correct_0, indexes).
     let check_denote = (if check_denotation col (answer example) (finalized_denotation path)
                         then (1::int) else 0);
         y_hat = (if check_denote = 0 then (1, 0) else (0, 1));
         d = d\<lparr>correct_predictions := correct_predictions d + check_denote,
               all_predictions := all_predictions d + 1\<rparr>;
         full_decision_for_print =
           fold (\<lambda>decision acc. acc @ '' '' @ name decision) (decisions path) [];
         st = st\<lparr>y_hat_batch := y_hat_batch st @ [y_hat],
                 beam_batch_0 := beam_batch_0 st @ [utter_embds],
                 tdb_decisions := tdb_decisions st @ [full_decision_for_print],
                 tdb_utterances := tdb_utterances st @ [sentence_for_print],
                 tdb_world_states := tdb_world_states st @ [world_state]\<rparr>
     in if check_denote \<noteq> 0
        then (d, st, correct_0 @ [utter_embds], indexes @ [idx])
        else (d, st, correct_0, indexes))"

text \<open>The loop over the examples (lines 320 to 377). An empty beam is skipped before
  \<open>beam_batch_correct\<close> is bound. The lines after the path loop (371 to 377) only build
  the local \<open>y_hat_new\<close>, which is never read.\<close>

fun tdb_loop ::
  "('c, 'v, 'vf, 'x) collaborators \<Rightarrow> ('v example \<times> ('c, 'v) beam) list \<Rightarrow>
   ('c, 'v, 'vf) decoder \<times> tdb_state \<Rightarrow> (error + tdb_state) \<times> ('c, 'v, 'vf) decoder" where
  "tdb_loop col [] (d, st) = (Inr st, d)"
| "tdb_loop col ((example, beam) # rest) (d, st) =
     (case beam of
        [] \<Rightarrow> tdb_loop col rest (d, st)
      | path0 # _ \<Rightarrow>
          (case embed_tokens (glove_embeddings d)
                  (concat (map tokens (utterances (path_context path0)))) ([], []) of
             Inl e \<Rightarrow> (Inl e, d)
           | Inr (utter_embds, sentence_for_print) \<Rightarrow>
               let world_state =
                     world_state_str (all_objects (initial_state (world (ex_context example))))
               in (case pad_utterance (utter_len d) utter_embds of
                     Inl e \<Rightarrow> (Inl e, d)
                   | Inr utter_embds \<Rightarrow>
                       let (d, st, correct_0, indexes) =
                             fold (tdb_path_step col example utter_embds sentence_for_print world_state)
                               (enumerate 0 beam) (d, st, [], [])
                       in tdb_loop col rest (d, st\<lparr>beam_batch_correct := Some (correct_0, [])\<rparr>))))"

definition tdb_init :: tdb_state where
  "tdb_init = \<lparr> beam_batch_0 = [], y_hat_batch = [], tdb_decisions = [], tdb_utterances = [],
                tdb_world_states = [], beam_batch_correct = None \<rparr>"

text \<open>\<open>train_decomposable_batches\<close>. The result \<open>Inr None\<close> is the early \<open>return\<close>;
  reading the unbound \<open>beam_batch_correct\<close> after the loop raises
  \<open>UnboundLocalError\<close>.\<close>

definition train_decomposable_batches ::
  "('c, 'v, 'vf, 'x) collaborators \<Rightarrow> ('c, 'v, 'vf) decoder \<Rightarrow> ('c, 'v) beam list \<Rightarrow>
   'v example list \<Rightarrow> (error + (string \<times> string \<times> int) list option) \<times> ('c, 'v, 'vf) decoder" where
  "train_decomposable_batches col d beams examples =
     (let d = d\<lparr>train_step_count := train_step_count d + 1\<rparr>
      in if train_step_count d < 0 then (Inr None, d)
         else
           (case tdb_loop col (zip examples beams) (d, tdb_init) of
              (Inl e, d) \<Rightarrow> (Inl e, d)
            | (Inr st, d) \<Rightarrow>
                (case beam_batch_correct st of
                   None \<Rightarrow> (Inl (UnboundLocalError ''beam_batch_correct''), d)
                 | Some _ \<Rightarrow>
                     (Inr (Some (map (\<lambda>(utter, dec, y). (utter, dec, snd y))
                                  (zip (tdb_utterances st) (zip (tdb_decisions st) (y_hat_batch st))))),
                      d))))"

subsection \<open>The training step\<close>

text \<open>\<open>gtd.utils.flatten\<close> concatenates a list of lists.\<close>

definition flatten :: "'a list list \<Rightarrow> 'a list" where
  "flatten lol = concat lol"

text \<open>The parameter updates issued to the two trainable models.\<close>

datatype ('c, 'x) model_update =
    ValueFunctionTrainStep "'x list"
  | ParseModelTrainStep "'c list" "real list" bool

text \<open>Lines 245 to 254: the cases and the weights of all examples. Calling the absent
  case weighter raises \<open>TypeError\<close>; the \<open>assert\<close> raises \<open>AssertionError\<close>.\<close>

fun collect_cases ::
  "('c, 'v) case_weighter option \<Rightarrow> ('v example \<times> ('c, 'v) beam) list \<Rightarrow> 'c list \<times> real list \<Rightarrow>
   error + ('c list \<times> real list)" where
  "collect_cases cw [] (all_cases, all_case_weights) = Inr (all_cases, all_case_weights)"
| "collect_cases cw ((example, paths) # rest) (all_cases, all_case_weights) =
     (case cw of
        None \<Rightarrow> Inl TypeError
      | Some weighter \<Rightarrow>
          let case_weights = flatten (weighter paths example);
              cases = flatten (map path_cases paths)
          in if length case_weights \<noteq> sum_list (map (\<lambda>p. length (path_cases p)) paths)
             then Inl AssertionError
             else collect_cases cw rest (all_cases @ cases, all_case_weights @ case_weights))"

text \<open>Lines 256 to 262: the cases with a weight other than 0.\<close>

fun prune :: "('c \<times> real) list \<Rightarrow> 'c list \<times> real list \<Rightarrow> 'c list \<times> real list" where
  "prune [] (cases_to_reinforce, weights_to_reinforce) = (cases_to_reinforce, weights_to_reinforce)"
| "prune ((pcase, weight) # rest) (cases_to_reinforce, weights_to_reinforce) =
     (if weight \<noteq> 0
      then prune rest (cases_to_reinforce @ [pcase], weights_to_reinforce @ [weight])
      else prune rest (cases_to_reinforce, weights_to_reinforce))"

text \<open>\<open>train_step\<close>: the result, the decoder afterwards, and the updates issued.\<close>

definition train_step ::
  "('c, 'v, 'vf, 'x) collaborators \<Rightarrow> ('c, 'v, 'vf) decoder \<Rightarrow> 'v example list \<Rightarrow>
   (error + unit) \<times> ('c, 'v, 'vf) decoder \<times> ('c, 'x) model_update list" where
  "train_step col d examples =
     (let beams = predictions d examples True False
      in case train_decomposable_batches col d beams examples of
           (Inl e, d) \<Rightarrow> (Inl e, d, [])
         | (Inr data, d) \<Rightarrow>
             let d = d\<lparr>decomposable_data := data\<rparr>
             in (case collect_cases (case_weighter d) (zip examples beams) ([], []) of
                   Inl e \<Rightarrow> (Inl e, d, [])
                 | Inr (all_cases, all_case_weights) \<Rightarrow>
                     let (cases_to_reinforce, weights_to_reinforce) =
                           prune (zip all_cases all_case_weights) ([], []);
                         vf_examples =
                           fold (\<lambda>(example, paths) acc. acc @ examples_from_paths col paths example)
                             (zip examples beams) []
                     in (case value_function d of
                           None \<Rightarrow> (Inl AttributeError, d, [])
                         | Some vf \<Rightarrow>
                             (case parse_model d of
                                None \<Rightarrow> (Inl AttributeError, d, [ValueFunctionTrainStep vf_examples])
                              | Some pm \<Rightarrow>
                                  (Inr (), d,
                                   [ValueFunctionTrainStep vf_examples,
                                    ParseModelTrainStep cases_to_reinforce weights_to_reinforce False])))))"

subsection \<open>A small instance\<close>

text \<open>A decoder over cases and denotations that are natural numbers, with collaborators
  that return fixed values: the exploration policies return the given beams, the case
  weighter is given, and the only known token is \<open>go\<close>.\<close>

definition demo_policy :: "(nat, nat) beam list \<Rightarrow> (nat, nat) exploration_policy" where
  "demo_policy beams =
     \<lparr> get_beams = (\<lambda>examples verbose. beams),
       get_intermediate_beams = (\<lambda>examples verbose. []) \<rparr>"

definition demo_collaborators ::
  "(nat, nat) case_weighter \<Rightarrow> (nat, nat) beam list \<Rightarrow> (nat, nat, unit, nat) collaborators" where
  "demo_collaborators w beams =
     \<lparr> get_value_function = (\<lambda>selector pm. ()),
       get_case_weighter = (\<lambda>selector pm vf. w),
       get_exploration_policy = (\<lambda>selector nrm train. demo_policy beams),
       check_denotation = (\<lambda>a b. a = b),
       examples_from_paths = (\<lambda>paths example. map (\<lambda>p. length (path_cases p)) paths) \<rparr>"

definition demo_config :: "string \<Rightarrow> config" where
  "demo_config nrm =
     \<lparr> cfg_value_function = ''vf'', cfg_case_weighter = ''cw'', inputs_caching = False,
       cfg_normalization = nrm, cfg_test_exploration_policy = ''test'',
       cfg_train_exploration_policy = ''train'' \<rparr>"

definition demo_domain :: "(nat, nat) domain" where
  "demo_domain = \<lparr> dom_path_checker = (\<lambda>path. True) \<rparr>"

definition demo_parse_model :: "nat train_parse_model" where
  "demo_parse_model =
     \<lparr> pm_score_breakdown = (\<lambda>cases ignore_previous_utterances caching.
         (map (\<lambda>c. [real c]) cases, map (\<lambda>c. [[real c]]) cases)) \<rparr>"

definition demo_glove :: "string \<rightharpoonup> real list" where
  "demo_glove = [''go'' \<mapsto> replicate 100 0]"

definition demo_context :: "string list \<Rightarrow> parse_context" where
  "demo_context toks =
     \<lparr> utterances = [\<lparr> tokens = toks \<rparr>],
       world = \<lparr> initial_state = \<lparr> all_objects = [\<lparr> position = 1, shape = ''3'' \<rparr>] \<rparr> \<rparr> \<rparr>"

definition demo_example :: "nat example" where
  "demo_example = \<lparr> ex_context = demo_context [''go''], answer = 1 \<rparr>"

definition demo_path :: "string list \<Rightarrow> nat list \<Rightarrow> real \<Rightarrow> (nat, nat) parse_path" where
  "demo_path toks cases s =
     \<lparr> path_cases = cases, log_prob = s, score = s, path_context = demo_context toks,
       finalized_denotation = 1, decisions = [\<lparr> name = ''walk'' \<rparr>], terminated = True \<rparr>"

text \<open>The instance the constructor returns for these arguments.\<close>

definition demo_decoder ::
  "string \<Rightarrow> predicate list \<Rightarrow> (nat, nat) case_weighter \<Rightarrow> (nat, nat) beam list \<Rightarrow>
   (nat, nat, unit) decoder" where
  "demo_decoder nrm predicates w beams =
     \<lparr> glove_embeddings = demo_glove,
       parse_model = Some demo_parse_model,
       value_function = Some (),
       case_weighter = Some w,
       dec_config = demo_config nrm,
       caching = False,
       path_checker = (\<lambda>path. True),
       utter_len = 2,
       max_stack_size = 3,
       train_step_count = 0,
       predicate_embedder_type = ''one_hot'',
       correct_predictions = 0,
       all_predictions = 0,
       decomposable_data = None,
       normalization = nrm,
       predicate2index = build_predicate_dictionary predicates,
       test_exploration_policy = demo_policy beams,
       train_exploration_policy = demo_policy beams \<rparr>"

definition demo_init ::
  "string \<Rightarrow> predicate list \<Rightarrow> (nat, nat) case_weighter \<Rightarrow> (nat, nat) beam list \<Rightarrow>
   (error + (nat, nat, unit) decoder) \<times> init_call list" where
  "demo_init nrm predicates w beams =
     init (demo_collaborators w beams) (Some demo_parse_model) (demo_config nrm) demo_domain
       demo_glove predicates 2 3 ''one_hot''"

text \<open>A case weighter that returns the same weights for every beam, and the predicates of
  the example in the specification.\<close>

definition demo_weighter :: "real list list \<Rightarrow> (nat, nat) case_weighter" where
  "demo_weighter ws = (\<lambda>paths example. ws)"

definition demo_predicates :: "predicate list" where
  "demo_predicates = [\<lparr> name = ''walk'' \<rparr>, \<lparr> name = ''turn'' \<rparr>, \<lparr> name = ''stop'' \<rparr>]"

text \<open>A beam with one terminated and one unfinished path.\<close>

definition demo_mixed_beam :: "(nat, nat) beam" where
  "demo_mixed_beam =
     [demo_path [''go''] [1] 0, (demo_path [''go''] [2] 0)\<lparr>terminated := False\<rparr>]"

text \<open>The paths of the grouping example: three, zero and two cases.\<close>

definition demo_three_paths :: "(nat, nat) parse_path list" where
  "demo_three_paths =
     [demo_path [''go''] [1, 2, 3] 0, demo_path [''go''] [] 0, demo_path [''go''] [4, 5] 0]"

subsection \<open>Auxiliary notions for the proofs\<close>

text \<open>The number of cases in the first \<open>i\<close> paths: the value of \<open>cumul[i]\<close>.\<close>

definition boundary :: "('c, 'v) parse_path list \<Rightarrow> nat \<Rightarrow> nat" where
  "boundary ps i = length (concat (map path_cases (take i ps)))"



definition weights_match :: "('c, 'v) case_weighter \<Rightarrow> 'v example \<times> ('c, 'v) beam \<Rightarrow> bool" where
  "weights_match w z =
     (length (flatten (w (snd z) (fst z))) = sum_list (map (\<lambda>p. length (path_cases p)) (snd z)))"

section \<open>Properties\<close>

subsection \<open>Construction\<close>

lemma LOCAL_neq_GLOBAL: "LOCAL \<noteq> GLOBAL"
  by (simp add: LOCAL_def GLOBAL_def)

lemma demo_init_eq:
  "nrm \<noteq> GLOBAL \<Longrightarrow>
   demo_init nrm predicates w beams =
     (Inr (demo_decoder nrm predicates w beams),
      [GetValueFunction ''vf'', GetCaseWeighter ''cw'',
       BuildModel (None, 100, 2) (None, int (length (build_predicate_dictionary predicates)), 2),
       GetExplorationPolicy ''test'' nrm False, GetExplorationPolicy ''train'' nrm True])"
  by (simp add: demo_init_def init_def demo_decoder_def demo_collaborators_def demo_config_def
      demo_domain_def Let_def)

lemma init_Inr:
  assumes "init col pm cfg dm glove predicates ul ms et = (Inr d, calls)"
  shows "cfg_normalization cfg \<noteq> GLOBAL"
    and "d = \<lparr> glove_embeddings = glove,
                     parse_model = pm,
                     value_function = map_option (get_value_function col (cfg_value_function cfg)) pm,
                     case_weighter = map_option (\<lambda>m. get_case_weighter col (cfg_case_weighter cfg) m
                         (get_value_function col (cfg_value_function cfg) m)) pm,
                     dec_config = cfg,
                     caching = inputs_caching cfg,
                     path_checker = dom_path_checker dm,
                     utter_len = ul,
                     max_stack_size = ms,
                     train_step_count = 0,
                     predicate_embedder_type = et,
                     correct_predictions = 0,
                     all_predictions = 0,
                     decomposable_data = None,
                     normalization = cfg_normalization cfg,
                     predicate2index = build_predicate_dictionary predicates,
                     test_exploration_policy = get_exploration_policy col (cfg_test_exploration_policy cfg)
                               (cfg_normalization cfg) False,
                     train_exploration_policy = get_exploration_policy col (cfg_train_exploration_policy cfg)
                               (cfg_normalization cfg) True \<rparr>"
proof -
  show n: "cfg_normalization cfg \<noteq> GLOBAL"
    using assms by (cases pm) (auto simp: init_def Let_def)
  show "d = \<lparr> glove_embeddings = glove,
                     parse_model = pm,
                     value_function = map_option (get_value_function col (cfg_value_function cfg)) pm,
                     case_weighter = map_option (\<lambda>m. get_case_weighter col (cfg_case_weighter cfg) m
                         (get_value_function col (cfg_value_function cfg) m)) pm,
                     dec_config = cfg,
                     caching = inputs_caching cfg,
                     path_checker = dom_path_checker dm,
                     utter_len = ul,
                     max_stack_size = ms,
                     train_step_count = 0,
                     predicate_embedder_type = et,
                     correct_predictions = 0,
                     all_predictions = 0,
                     decomposable_data = None,
                     normalization = cfg_normalization cfg,
                     predicate2index = build_predicate_dictionary predicates,
                     test_exploration_policy = get_exploration_policy col (cfg_test_exploration_policy cfg)
                               (cfg_normalization cfg) False,
                     train_exploration_policy = get_exploration_policy col (cfg_train_exploration_policy cfg)
                               (cfg_normalization cfg) True \<rparr>"
    using assms n by (cases pm) (simp_all add: init_def Let_def)
qed

lemma init_fields:
  assumes "init col pm cfg dm glove predicates ul ms et = (Inr d, calls)"
  shows "predicate2index d = build_predicate_dictionary predicates"
    and "train_exploration_policy d =
           get_exploration_policy col (cfg_train_exploration_policy cfg) (cfg_normalization cfg) True"
    and "test_exploration_policy d =
           get_exploration_policy col (cfg_test_exploration_policy cfg) (cfg_normalization cfg) False"
    and "train_step_count d = 0"
    and "normalization d \<noteq> GLOBAL"
  using init_Inr [OF assms] by simp_all

lemma build_snoc:
  "build_predicate_dictionary (ps @ [p]) =
     AList.update (name p) (length ps) (build_predicate_dictionary ps)"
  by (simp add: build_predicate_dictionary_def enumerate_append_eq)

lemma map_of_build:
  "map_of (build_predicate_dictionary ps) k = Some i \<longleftrightarrow>
     (i < length ps \<and> name (ps ! i) = k \<and> (\<forall>j. i < j \<and> j < length ps \<longrightarrow> name (ps ! j) \<noteq> k))"
proof (induction ps arbitrary: i rule: rev_induct)
  case Nil
  then show ?case by (simp add: build_predicate_dictionary_def)
next
  case (snoc p ps)
  let ?R = "\<lambda>qs i. i < length qs \<and> name (qs ! i) = k \<and>
              (\<forall>j. i < j \<and> j < length qs \<longrightarrow> name (qs ! j) \<noteq> k)"
  show ?case
  proof (cases "name p = k")
    case True
    have lhs: "map_of (build_predicate_dictionary (ps @ [p])) k = Some i \<longleftrightarrow> i = length ps"
      using True by (auto simp: build_snoc update_conv')
    have rhs: "?R (ps @ [p]) i \<longleftrightarrow> i = length ps"
    proof
      assume r: "?R (ps @ [p]) i"
      show "i = length ps"
      proof (rule ccontr)
        assume "i \<noteq> length ps"
        then have "i < length ps" using r by simp
        moreover have "i < length ps \<and> length ps < length (ps @ [p]) \<longrightarrow>
                         name ((ps @ [p]) ! length ps) \<noteq> k"
          using r by blast
        ultimately have "name ((ps @ [p]) ! length ps) \<noteq> k" by simp
        then show False using True by simp
      qed
    next
      assume il: "i = length ps"
      have "name ((ps @ [p]) ! j) \<noteq> k" if "i < j" "j < length (ps @ [p])" for j
        using that il by simp
      moreover have "i < length (ps @ [p])" "name ((ps @ [p]) ! i) = k"
        using True il by simp_all
      ultimately show "?R (ps @ [p]) i" by blast
    qed
    show ?thesis using lhs rhs by simp
  next
    case False
    have lhs: "map_of (build_predicate_dictionary (ps @ [p])) k = Some i \<longleftrightarrow> ?R ps i"
      using False snoc.IH [of i] by (simp add: build_snoc update_conv')
    have rhs: "?R (ps @ [p]) i \<longleftrightarrow> ?R ps i"
    proof
      assume r: "?R (ps @ [p]) i"
      have "i \<noteq> length ps" using r False by auto
      then have i: "i < length ps" using r by simp
      have "name (ps ! j) \<noteq> k" if "i < j" "j < length ps" for j
      proof -
        have "name ((ps @ [p]) ! j) \<noteq> k" using r that by simp
        then show ?thesis using that by (simp add: nth_append)
      qed
      then show "?R ps i" using r i by (simp add: nth_append)
    next
      assume r: "?R ps i"
      have "name ((ps @ [p]) ! j) \<noteq> k" if "i < j" "j < length (ps @ [p])" for j
      proof (cases "j < length ps")
        case True
        then show ?thesis using r that by (simp add: nth_append)
      next
        case False
        then have "j = length ps" using that by simp
        then show ?thesis using \<open>name p \<noteq> k\<close> by simp
      qed
      then show "?R (ps @ [p]) i" using r by (simp add: nth_append)
    qed
    show ?thesis using lhs rhs by simp
  qed
qed

lemma keys_build: "fst ` set (build_predicate_dictionary ps) = name ` set ps"
proof (induction ps rule: rev_induct)
  case Nil
  then show ?case by (simp add: build_predicate_dictionary_def)
next
  case (snoc p ps)
  then show ?case by (simp add: build_snoc dom_update)
qed

lemma update_fresh: "k \<notin> fst ` set al \<Longrightarrow> AList.update k v al = al @ [(k, v)]"
proof (induction al)
  case Nil
  show ?case by simp
next
  case (Cons a al)
  then have "fst a \<noteq> k" and "k \<notin> fst ` set al" by force+
  with Cons.IH show ?case by simp
qed

lemma build_distinct:
  "distinct (map name ps) \<Longrightarrow>
   build_predicate_dictionary ps = zip (map name ps) [0..<length ps]"
proof (induction ps rule: rev_induct)
  case Nil
  then show ?case by (simp add: build_predicate_dictionary_def)
next
  case (snoc p ps)
  have "name p \<notin> fst ` set (build_predicate_dictionary ps)"
    using snoc.prems by (simp add: keys_build)
  then have "build_predicate_dictionary (ps @ [p]) =
               build_predicate_dictionary ps @ [(name p, length ps)]"
    by (simp add: build_snoc update_fresh)
  then show ?case using snoc by simp
qed

lemma one_hot_rows_ok:
  "\<forall>dc \<in> set decs. \<exists>k. map_of pd dc = Some k \<and> k < length pd \<Longrightarrow>
   one_hot_rows pd decs =
     Inr (map (\<lambda>dc. (replicate (length pd) 0)[the (map_of pd dc) := 1]) decs)"
  by (induction decs) (auto simp: one_hot_decision_def)

text \<open>
  Claim C3. Constructing a decoder with \<open>normalization = global\<close> raises
  \<open>ValueError\<close> in the constructor: no instance is returned, and of the collaborators only
  the value function and case weighter factories (which precede the check, and only when a
  parse model is given) have been called; the predicate dictionary, \<open>build_model\<close> and the
  exploration policies are not reached.
\<close>

theorem init_global_raises:
  assumes "cfg_normalization cfg = GLOBAL"
  shows "init col pm cfg dm glove predicates ul ms et =
           (Inl (ValueError ''Global normalization is no longer supported.''),
            (case pm of None \<Rightarrow> []
             | Some m \<Rightarrow> [GetValueFunction (cfg_value_function cfg),
                          GetCaseWeighter (cfg_case_weighter cfg)]))"
  using assms by (simp add: init_def Let_def split: option.splits)

theorem init_global_raises_witness:
  "cfg_normalization (demo_config GLOBAL) = GLOBAL
   \<and> demo_init GLOBAL demo_predicates (demo_weighter []) [] =
     (Inl (ValueError ''Global normalization is no longer supported.''),
      [GetValueFunction ''vf'', GetCaseWeighter ''cw''])"
  using init_global_raises [of "demo_config GLOBAL" "demo_collaborators (demo_weighter []) []"
     "Some demo_parse_model" demo_domain demo_glove demo_predicates 2 3 "''one_hot''"]
  by (simp add: demo_init_def demo_config_def)

subsection \<open>The predicate dictionary and one-hot encoding\<close>

lemma build_demo_predicates:
  "build_predicate_dictionary demo_predicates = [(''walk'', 0), (''turn'', 1), (''stop'', 2)]"
  by (simp add: demo_predicates_def build_predicate_dictionary_def)

text \<open>
  Claim C7, as amended. The dictionary built at construction maps a name to the position of
  its last occurrence in the list of predicates. When the names are distinct, the
  dictionary lists the names in input order with the indices \<open>0, 1, ...\<close>, and the one-hot
  encoding of decisions that are predicate names yields one row per decision, of the
  dictionary's size, all zeros but a 1 at the decision's index.
\<close>

theorem predicate_dictionary_one_hot:
  assumes "init col pm cfg dm glove predicates ul ms et = (Inr d, calls)"
  shows "(\<forall>k i. map_of (predicate_dictionary d) k = Some i \<longleftrightarrow>
            (i < length predicates \<and> name (predicates ! i) = k \<and>
             (\<forall>j. i < j \<and> j < length predicates \<longrightarrow> name (predicates ! j) \<noteq> k)))
       \<and> (distinct (map name predicates) \<longrightarrow>
            predicate_dictionary d = zip (map name predicates) [0..<length predicates]
          \<and> (\<forall>decs. set decs \<subseteq> name ` set predicates \<longrightarrow>
               (\<exists>rows. decisions_to_one_hot d decs = Inr rows \<and> length rows = length decs
                 \<and> (\<forall>n < length decs. \<forall>i < length predicates.
                       name (predicates ! i) = decs ! n \<longrightarrow>
                       rows ! n = (replicate (length predicates) 0)[i := 1]))))"
proof -
  have pd: "predicate_dictionary d = build_predicate_dictionary predicates"
    using init_fields(1) [OF assms] by (simp add: predicate_dictionary_def)
  have part1: "\<forall>k i. map_of (predicate_dictionary d) k = Some i \<longleftrightarrow>
            (i < length predicates \<and> name (predicates ! i) = k \<and>
             (\<forall>j. i < j \<and> j < length predicates \<longrightarrow> name (predicates ! j) \<noteq> k))"
    unfolding pd by (simp add: map_of_build)
  have part2: "predicate_dictionary d = zip (map name predicates) [0..<length predicates]
          \<and> (\<forall>decs. set decs \<subseteq> name ` set predicates \<longrightarrow>
               (\<exists>rows. decisions_to_one_hot d decs = Inr rows \<and> length rows = length decs
                 \<and> (\<forall>n < length decs. \<forall>i < length predicates.
                       name (predicates ! i) = decs ! n \<longrightarrow>
                       rows ! n = (replicate (length predicates) 0)[i := 1])))"
    if dist: "distinct (map name predicates)"
  proof (intro conjI allI impI)
    show "predicate_dictionary d = zip (map name predicates) [0..<length predicates]"
      unfolding pd by (rule build_distinct [OF dist])
  next
    fix decs assume sub: "set decs \<subseteq> name ` set predicates"
    let ?pd = "build_predicate_dictionary predicates"
    have len: "length ?pd = length predicates"
      by (simp add: build_distinct [OF dist])
    have idx: "map_of ?pd (name (predicates ! i)) = Some i" if "i < length predicates" for i
    proof -
      have "\<forall>j. i < j \<and> j < length predicates \<longrightarrow> name (predicates ! j) \<noteq> name (predicates ! i)"
        using dist that by (auto simp: distinct_conv_nth)
      then show ?thesis using that map_of_build [of predicates "name (predicates ! i)" i] by simp
    qed
    have known: "\<forall>dc \<in> set decs. \<exists>k. map_of ?pd dc = Some k \<and> k < length ?pd"
    proof
      fix dc assume "dc \<in> set decs"
      then have "dc \<in> name ` set predicates" using sub by auto
      then obtain i where "i < length predicates" "dc = name (predicates ! i)"
        by (auto simp: in_set_conv_nth)
      then show "\<exists>k. map_of ?pd dc = Some k \<and> k < length ?pd"
        using idx len by auto
    qed
    let ?rows = "map (\<lambda>dc. (replicate (length ?pd) 0)[the (map_of ?pd dc) := 1]) decs"
    have eq: "decisions_to_one_hot d decs = Inr ?rows"
      unfolding decisions_to_one_hot_def pd by (rule one_hot_rows_ok [OF known])
    have "\<forall>n < length decs. \<forall>i < length predicates.
            name (predicates ! i) = decs ! n \<longrightarrow>
            ?rows ! n = (replicate (length predicates) 0)[i := 1]"
    proof (intro allI impI)
      fix n i assume "n < length decs" "i < length predicates" "name (predicates ! i) = decs ! n"
      then have "map_of ?pd (decs ! n) = Some i" using idx [of i] by simp
      then show "?rows ! n = (replicate (length predicates) 0)[i := 1]"
        using \<open>n < length decs\<close> len by simp
    qed
    then show "\<exists>rows. decisions_to_one_hot d decs = Inr rows \<and> length rows = length decs
                 \<and> (\<forall>n < length decs. \<forall>i < length predicates.
                       name (predicates ! i) = decs ! n \<longrightarrow>
                       rows ! n = (replicate (length predicates) 0)[i := 1])"
      using eq by simp
  qed
  show ?thesis
    by (rule conjI [OF part1]) (rule impI, rule part2)
qed

theorem predicate_dictionary_one_hot_witness:
  "demo_init LOCAL demo_predicates (demo_weighter []) [] =
     (Inr (demo_decoder LOCAL demo_predicates (demo_weighter []) []),
      [GetValueFunction ''vf'', GetCaseWeighter ''cw'',
       BuildModel (None, 100, 2) (None, 3, 2),
       GetExplorationPolicy ''test'' LOCAL False, GetExplorationPolicy ''train'' LOCAL True])
   \<and> distinct (map name demo_predicates)
   \<and> set [''turn'', ''stop''] \<subseteq> name ` set demo_predicates
   \<and> predicate_dictionary (demo_decoder LOCAL demo_predicates (demo_weighter []) []) =
       [(''walk'', 0), (''turn'', 1), (''stop'', 2)]
   \<and> decisions_to_one_hot (demo_decoder LOCAL demo_predicates (demo_weighter []) [])
       [''turn'', ''stop''] = Inr [[0, 1, 0], [0, 0, 1]]"
proof -
  let ?D = "demo_decoder LOCAL demo_predicates (demo_weighter []) []"
  have ini: "init (demo_collaborators (demo_weighter []) []) (Some demo_parse_model)
       (demo_config LOCAL) demo_domain demo_glove demo_predicates 2 3 ''one_hot'' =
     (Inr ?D,
      [GetValueFunction ''vf'', GetCaseWeighter ''cw'',
       BuildModel (None, 100, 2) (None, 3, 2),
       GetExplorationPolicy ''test'' LOCAL False, GetExplorationPolicy ''train'' LOCAL True])"
    using demo_init_eq [of LOCAL demo_predicates "demo_weighter []" "[]"]
    by (simp add: demo_init_def build_demo_predicates LOCAL_neq_GLOBAL)
  have dist: "distinct (map name demo_predicates)" by (simp add: demo_predicates_def)
  have sub: "set [''turn'', ''stop''] \<subseteq> name ` set demo_predicates"
    by (simp add: demo_predicates_def)
  note main = predicate_dictionary_one_hot [OF ini]
  have pd: "predicate_dictionary ?D = zip (map name demo_predicates) [0..<length demo_predicates]"
    using main dist by blast
  have pd': "predicate_dictionary ?D = [(''walk'', 0), (''turn'', 1), (''stop'', 2)]"
    unfolding pd by (simp add: demo_predicates_def upt_rec)
  have oh: "decisions_to_one_hot ?D [''turn'', ''stop''] = Inr [[0, 1, 0], [0, 0, 1]]"
    by (simp add: decisions_to_one_hot_def pd' one_hot_decision_def)
  show ?thesis using ini dist sub pd' oh by (simp add: demo_init_def)
qed

text \<open>With a duplicate name the index stored for it is not below the dictionary's size,
  and encoding that name raises \<open>IndexError\<close>.\<close>

theorem one_hot_duplicate_counterexample:
  "demo_init LOCAL [\<lparr> name = ''walk'' \<rparr>, \<lparr> name = ''walk'' \<rparr>] (demo_weighter []) [] =
     (Inr (demo_decoder LOCAL [\<lparr> name = ''walk'' \<rparr>, \<lparr> name = ''walk'' \<rparr>] (demo_weighter []) []),
      [GetValueFunction ''vf'', GetCaseWeighter ''cw'',
       BuildModel (None, 100, 2) (None, 1, 2),
       GetExplorationPolicy ''test'' LOCAL False, GetExplorationPolicy ''train'' LOCAL True])
   \<and> predicate_dictionary (demo_decoder LOCAL [\<lparr> name = ''walk'' \<rparr>, \<lparr> name = ''walk'' \<rparr>]
        (demo_weighter []) []) = [(''walk'', 1)]
   \<and> decisions_to_one_hot (demo_decoder LOCAL [\<lparr> name = ''walk'' \<rparr>, \<lparr> name = ''walk'' \<rparr>]
        (demo_weighter []) []) [''walk''] = Inl IndexError"
proof -
  have b: "build_predicate_dictionary [\<lparr> name = ''walk'' \<rparr>, \<lparr> name = ''walk'' \<rparr>] = [(''walk'', 1)]"
    by (simp add: build_predicate_dictionary_def)
  have pd: "predicate_dictionary (demo_decoder LOCAL [\<lparr> name = ''walk'' \<rparr>, \<lparr> name = ''walk'' \<rparr>]
        (demo_weighter []) []) = [(''walk'', 1)]"
    by (simp add: predicate_dictionary_def demo_decoder_def b)
  show ?thesis
    using demo_init_eq [of LOCAL "[\<lparr> name = ''walk'' \<rparr>, \<lparr> name = ''walk'' \<rparr>]" "demo_weighter []" "[]"]
    by (simp add: pd b decisions_to_one_hot_def one_hot_decision_def LOCAL_neq_GLOBAL)
qed

subsection \<open>Probabilities\<close>

lemma fold_min_Min: "fold min xs (x::real) = Min (set (x # xs))"
  by (metis Min.set_eq_fold)

lemma np_min_nonempty: "xs \<noteq> [] \<Longrightarrow> \<exists>m. np_min xs = Inr m"
  by (cases xs) auto

text \<open>
  Claim C4. Under local normalization the i-th probability is \<open>exp\<close> of the i-th path's
  \<open>log_prob\<close> and is not negative. The entries need not sum to 1: two paths of
  \<open>log_prob\<close> 0 give the probabilities 1 and 1.
\<close>

theorem get_probs_local:
  assumes "normalization d = LOCAL"
  shows "(\<exists>ps. get_probs d beam = Inr ps \<and> length ps = length beam
            \<and> (\<forall>i < length beam. ps ! i = Finite (exp (log_prob (beam ! i))) \<and> np_nonneg (ps ! i)))
       \<and> get_probs d [p\<lparr>log_prob := 0\<rparr>, p\<lparr>log_prob := 0\<rparr>] = Inr [Finite 1, Finite 1]
       \<and> \<not> sums_to_one [Finite 1, Finite 1]"
  using assms by (simp add: get_probs_def sums_to_one_def np_nonneg_def)

theorem get_probs_local_witness:
  "normalization (demo_decoder LOCAL demo_predicates (demo_weighter []) []) = LOCAL
   \<and> get_probs (demo_decoder LOCAL demo_predicates (demo_weighter []) [])
       [demo_path [''go''] [1] 0, demo_path [''go''] [1] 0] = Inr [Finite 1, Finite 1]
   \<and> \<not> sums_to_one [Finite 1, Finite 1]"
proof -
  have n: "normalization (demo_decoder LOCAL demo_predicates (demo_weighter []) []) = LOCAL"
    by (simp add: demo_decoder_def)
  have p: "(demo_path [''go''] [1] 0)\<lparr>log_prob := 0\<rparr> = demo_path [''go''] [1] 0"
    by (simp add: demo_path_def)
  show ?thesis
    using get_probs_local [OF n, of "[]" "demo_path [''go''] [1] 0", THEN conjunct2] n
    unfolding p by simp
qed

text \<open>
  Claim C5. In either normalization mode \<open>get_probs\<close> returns an array as long as the
  beam, and never an error; for the empty beam it returns the empty array.
\<close>

theorem get_probs_length:
  "(\<exists>ps. get_probs d beam = Inr ps \<and> length ps = length beam) \<and> get_probs d [] = Inr []"
proof -
  have "\<exists>ps. get_probs d beam = Inr ps \<and> length ps = length beam"
  proof (cases "beam = []")
    case True
    then show ?thesis by (simp add: get_probs_def)
  next
    case False
    then obtain m where "np_min (map score beam) = Inr m"
      using np_min_nonempty [of "map score beam"] by auto
    with False show ?thesis by (simp add: get_probs_def Let_def)
  qed
  then show ?thesis by (simp add: get_probs_def)
qed

lemma get_probs_global_eq:
  assumes "normalization d \<noteq> LOCAL" and "beam \<noteq> []"
  shows "get_probs d beam =
           Inr (map (\<lambda>path. np_div (score path - Min (set (map score beam)))
                       (\<Sum>q\<leftarrow>beam. score q - Min (set (map score beam)))) beam)"
proof -
  obtain p ps where b: "beam = p # ps" using assms(2) by (cases beam) auto
  have "np_min (map score beam) = Inr (Min (set (map score beam)))"
    unfolding b by (simp add: fold_min_Min)
  then show ?thesis
    using assms by (simp add: get_probs_def Let_def comp_def)
qed

text \<open>
  Claim C9, as amended. The constructor rejects global normalization, so no decoder it
  returns is in that mode. The branch of \<open>get_probs\<close> that global normalization would take
  (the one for every normalization other than local) subtracts the minimum score of the
  beam from each score, so that no shifted score is negative, and divides each shifted
  score by their sum. For a beam that holds two different scores the sum is positive and
  the returned probabilities are non-negative and sum to 1, in exact arithmetic.
\<close>

theorem get_probs_global_shifted:
  assumes "normalization d \<noteq> LOCAL" and "beam \<noteq> []"
  shows "(\<exists>m. np_min (map score beam) = Inr m
            \<and> list_all (\<lambda>p. 0 \<le> score p - m) beam
            \<and> get_probs d beam =
                Inr (map (\<lambda>p. np_div (score p - m) (\<Sum>q\<leftarrow>beam. score q - m)) beam)
            \<and> ((\<exists>p \<in> set beam. \<exists>q \<in> set beam. score p \<noteq> score q) \<longrightarrow>
                 get_probs d beam =
                   Inr (map (\<lambda>p. Finite ((score p - m) / (\<Sum>q\<leftarrow>beam. score q - m))) beam)
               \<and> list_all np_nonneg
                   (map (\<lambda>p. Finite ((score p - m) / (\<Sum>q\<leftarrow>beam. score q - m))) beam)
               \<and> sums_to_one
                   (map (\<lambda>p. Finite ((score p - m) / (\<Sum>q\<leftarrow>beam. score q - m))) beam)))
       \<and> (init col pm cfg dm glove predicates ul ms et = (Inr d0, calls) \<longrightarrow>
            normalization d0 \<noteq> GLOBAL)"
proof (rule conjI)
  show "init col pm cfg dm glove predicates ul ms et = (Inr d0, calls) \<longrightarrow>
            normalization d0 \<noteq> GLOBAL"
    using init_fields(5) by blast
next
  define m where "m = Min (set (map score beam))"
  define S where "S = (\<Sum>q\<leftarrow>beam. score q - m)"
  obtain b bs where b: "beam = b # bs" using assms(2) by (cases beam) auto
  have mn: "np_min (map score beam) = Inr m"
    unfolding b m_def by (simp add: fold_min_Min)
  have mle: "m \<le> score x" if "x \<in> set beam" for x
    unfolding m_def using that by (simp add: Min_le)
  have nonneg: "0 \<le> score x - m" if "x \<in> set beam" for x
    using mle [OF that] by simp
  have shifted: "list_all (\<lambda>p. 0 \<le> score p - m) beam"
    using nonneg by (simp add: list_all_iff)
  have eq: "get_probs d beam = Inr (map (\<lambda>p. np_div (score p - m) S) beam)"
    using get_probs_global_eq [OF assms] by (simp add: m_def S_def)
  have dist: "get_probs d beam = Inr (map (\<lambda>p. Finite ((score p - m) / S)) beam)
            \<and> list_all np_nonneg (map (\<lambda>p. Finite ((score p - m) / S)) beam)
            \<and> sums_to_one (map (\<lambda>p. Finite ((score p - m) / S)) beam)"
    if two: "\<exists>p \<in> set beam. \<exists>q \<in> set beam. score p \<noteq> score q"
  proof -
    obtain p q where pq: "p \<in> set beam" "q \<in> set beam" "score p \<noteq> score q"
      using two by blast
    have "score p \<noteq> m \<or> score q \<noteq> m" using pq(3) by auto
    then obtain x where x: "x \<in> set beam" "score x \<noteq> m" using pq(1,2) by blast
    have xpos: "0 < score x - m" using mle [OF x(1)] x(2) by simp
    have "score x - m \<le> S"
      unfolding S_def using x(1) nonneg by (intro member_le_sum_list) auto
    then have Spos: "0 < S" using xpos by linarith
    have e: "get_probs d beam = Inr (map (\<lambda>p. Finite ((score p - m) / S)) beam)"
      unfolding eq using Spos by (simp add: np_div_def)
    have "(\<Sum>p\<leftarrow>beam. (score p - m) / S) = S / S"
      unfolding S_def by (simp add: divide_inverse sum_list_mult_const)
    then have one: "(\<Sum>p\<leftarrow>beam. (score p - m) / S) = 1" using Spos by simp
    have nn: "list_all np_nonneg (map (\<lambda>p. Finite ((score p - m) / S)) beam)"
      using nonneg Spos by (simp add: list_all_iff np_nonneg_def)
    have so: "sums_to_one (map (\<lambda>p. Finite ((score p - m) / S)) beam)"
      using one by (simp add: sums_to_one_def list_all_iff comp_def)
    show ?thesis using e nn so by simp
  qed
  show "\<exists>m. np_min (map score beam) = Inr m
            \<and> list_all (\<lambda>p. 0 \<le> score p - m) beam
            \<and> get_probs d beam =
                Inr (map (\<lambda>p. np_div (score p - m) (\<Sum>q\<leftarrow>beam. score q - m)) beam)
            \<and> ((\<exists>p \<in> set beam. \<exists>q \<in> set beam. score p \<noteq> score q) \<longrightarrow>
                 get_probs d beam =
                   Inr (map (\<lambda>p. Finite ((score p - m) / (\<Sum>q\<leftarrow>beam. score q - m))) beam)
               \<and> list_all np_nonneg
                   (map (\<lambda>p. Finite ((score p - m) / (\<Sum>q\<leftarrow>beam. score q - m))) beam)
               \<and> sums_to_one
                   (map (\<lambda>p. Finite ((score p - m) / (\<Sum>q\<leftarrow>beam. score q - m))) beam))"
    using mn shifted eq dist unfolding S_def by (intro exI [of _ m]) blast
qed

theorem get_probs_global_shifted_witness:
  "normalization (demo_decoder GLOBAL demo_predicates (demo_weighter []) []) \<noteq> LOCAL
   \<and> [demo_path [''go''] [7] 1, demo_path [''go''] [8] 3] \<noteq> []
   \<and> score (demo_path [''go''] [7] 1) \<noteq> score (demo_path [''go''] [8] 3)
   \<and> get_probs (demo_decoder GLOBAL demo_predicates (demo_weighter []) [])
        [demo_path [''go''] [7] 1, demo_path [''go''] [8] 3] = Inr [Finite 0, Finite 1]
   \<and> list_all np_nonneg [Finite 0, Finite 1]
   \<and> sums_to_one [Finite 0, Finite 1]"
proof -
  let ?D = "demo_decoder GLOBAL demo_predicates (demo_weighter []) []"
  let ?B = "[demo_path [''go''] [7] 1, demo_path [''go''] [8] 3]"
  have h1: "normalization ?D \<noteq> LOCAL"
    using LOCAL_neq_GLOBAL by (simp add: demo_decoder_def)
  have h2: "?B \<noteq> []" by simp
  have sc: "score (demo_path [''go''] [7] 1) \<noteq> score (demo_path [''go''] [8] 3)"
    by (simp add: demo_path_def)
  have two: "\<exists>p \<in> set ?B. \<exists>q \<in> set ?B. score p \<noteq> score q"
  proof (rule bexI [of _ "demo_path [''go''] [7] 1"], rule bexI [of _ "demo_path [''go''] [8] 3"])
    show "score (demo_path [''go''] [7] 1) \<noteq> score (demo_path [''go''] [8] 3)" by (rule sc)
  qed simp_all
  have mn: "np_min (map score ?B) = Inr 1" by (simp add: demo_path_def)
  obtain m where m: "np_min (map score ?B) = Inr m"
    and r: "get_probs ?D ?B = Inr (map (\<lambda>p. Finite ((score p - m) / (\<Sum>q\<leftarrow>?B. score q - m))) ?B)"
    using get_probs_global_shifted [OF h1 h2] two by blast
  have "m = 1" using m mn by simp
  then have g: "get_probs ?D ?B = Inr [Finite 0, Finite 1]"
    using r by (simp add: demo_path_def)
  have nn: "list_all np_nonneg [Finite 0, Finite 1]" by (simp add: np_nonneg_def)
  have so: "sums_to_one [Finite 0, Finite 1]" by (simp add: sums_to_one_def)
  show ?thesis using h1 h2 sc g nn so by blast
qed

text \<open>On a beam of a single path the shifted score is 0, the sum is 0, and the division
  yields \<open>nan\<close>: the result is not a distribution. This is so in the mode the constructor
  rejects and for a decoder it returns for a normalization that is neither local nor
  global.\<close>

theorem get_probs_global_single_counterexample:
  "get_probs (demo_decoder GLOBAL demo_predicates (demo_weighter []) []) [demo_path [''go''] [7] 1]
     = Inr [NaN]
   \<and> \<not> sums_to_one [NaN] \<and> \<not> np_nonneg NaN
   \<and> demo_init ''other'' demo_predicates (demo_weighter []) [] =
       (Inr (demo_decoder ''other'' demo_predicates (demo_weighter []) []),
        [GetValueFunction ''vf'', GetCaseWeighter ''cw'',
         BuildModel (None, 100, 2) (None, 3, 2),
         GetExplorationPolicy ''test'' ''other'' False, GetExplorationPolicy ''train'' ''other'' True])
   \<and> get_probs (demo_decoder ''other'' demo_predicates (demo_weighter []) [])
        [demo_path [''go''] [7] 1] = Inr [NaN]"
proof -
  have a: "get_probs (demo_decoder GLOBAL demo_predicates (demo_weighter []) [])
             [demo_path [''go''] [7] 1] = Inr [NaN]"
    by (simp add: get_probs_def demo_decoder_def demo_path_def GLOBAL_def LOCAL_def np_div_def)
  have b: "\<not> sums_to_one [NaN]" by (simp add: sums_to_one_def)
  have c: "\<not> np_nonneg NaN" by (simp add: np_nonneg_def)
  have ne: "''other'' \<noteq> GLOBAL" by (simp add: GLOBAL_def)
  have d: "demo_init ''other'' demo_predicates (demo_weighter []) [] =
       (Inr (demo_decoder ''other'' demo_predicates (demo_weighter []) []),
        [GetValueFunction ''vf'', GetCaseWeighter ''cw'',
         BuildModel (None, 100, 2) (None, 3, 2),
         GetExplorationPolicy ''test'' ''other'' False, GetExplorationPolicy ''train'' ''other'' True])"
    using demo_init_eq [OF ne, of demo_predicates "demo_weighter []" "[]"]
    by (simp add: build_demo_predicates)
  have e: "get_probs (demo_decoder ''other'' demo_predicates (demo_weighter []) [])
             [demo_path [''go''] [7] 1] = Inr [NaN]"
    by (simp add: get_probs_def demo_decoder_def demo_path_def LOCAL_def np_div_def)
  show ?thesis using a b c d e by blast
qed

subsection \<open>Prediction\<close>

text \<open>
  Claim C8. \<open>predictions\<close> asks the train or the test exploration policy stored in the
  decoder for the beams of the batch and returns the terminated paths of each beam, in the
  same order. The two policies are the ones the constructor obtained from
  \<open>get_exploration_policy\<close>. When the policy returns one beam per example, the i-th result
  is the terminated part of the i-th example's beam.
\<close>

theorem predictions_terminated:
  "predictions d examples train verbose =
     map get_terminated
       (get_beams (if train then train_exploration_policy d else test_exploration_policy d)
          examples verbose)
   \<and> (init col pm cfg dm glove predicates ul ms et = (Inr d, calls) \<longrightarrow>
        train_exploration_policy d =
          get_exploration_policy col (cfg_train_exploration_policy cfg) (cfg_normalization cfg) True
      \<and> test_exploration_policy d =
          get_exploration_policy col (cfg_test_exploration_policy cfg) (cfg_normalization cfg) False)
   \<and> (length (get_beams (exploration_policy d train) examples verbose) = length examples \<longrightarrow>
        length (predictions d examples train verbose) = length examples
      \<and> (\<forall>i < length examples.
            predictions d examples train verbose ! i =
              filter terminated (get_beams (exploration_policy d train) examples verbose ! i)))"
proof (intro conjI impI)
  show "predictions d examples train verbose =
     map get_terminated
       (get_beams (if train then train_exploration_policy d else test_exploration_policy d)
          examples verbose)"
    by (simp add: predictions_def exploration_policy_def Let_def)
next
  assume i: "init col pm cfg dm glove predicates ul ms et = (Inr d, calls)"
  show "train_exploration_policy d =
          get_exploration_policy col (cfg_train_exploration_policy cfg) (cfg_normalization cfg) True"
    by (rule init_fields(2) [OF i])
  show "test_exploration_policy d =
          get_exploration_policy col (cfg_test_exploration_policy cfg) (cfg_normalization cfg) False"
    by (rule init_fields(3) [OF i])
next
  assume l: "length (get_beams (exploration_policy d train) examples verbose) = length examples"
  then show "length (predictions d examples train verbose) = length examples"
    by (simp add: predictions_def Let_def)
  show "\<forall>i < length examples.
            predictions d examples train verbose ! i =
              filter terminated (get_beams (exploration_policy d train) examples verbose ! i)"
    using l by (simp add: predictions_def Let_def get_terminated_def)
qed

theorem predictions_terminated_witness:
  "demo_init LOCAL demo_predicates (demo_weighter []) [demo_mixed_beam] =
     (Inr (demo_decoder LOCAL demo_predicates (demo_weighter []) [demo_mixed_beam]),
      [GetValueFunction ''vf'', GetCaseWeighter ''cw'',
       BuildModel (None, 100, 2) (None, 3, 2),
       GetExplorationPolicy ''test'' LOCAL False, GetExplorationPolicy ''train'' LOCAL True])
   \<and> length (get_beams (exploration_policy
        (demo_decoder LOCAL demo_predicates (demo_weighter []) [demo_mixed_beam]) True)
        [demo_example] False) = length [demo_example]
   \<and> predictions (demo_decoder LOCAL demo_predicates (demo_weighter []) [demo_mixed_beam])
        [demo_example] True False = [[demo_path [''go''] [1] 0]]"
proof -
  let ?D = "demo_decoder LOCAL demo_predicates (demo_weighter []) [demo_mixed_beam]"
  have ini: "demo_init LOCAL demo_predicates (demo_weighter []) [demo_mixed_beam] =
     (Inr ?D,
      [GetValueFunction ''vf'', GetCaseWeighter ''cw'',
       BuildModel (None, 100, 2) (None, 3, 2),
       GetExplorationPolicy ''test'' LOCAL False, GetExplorationPolicy ''train'' LOCAL True])"
    using demo_init_eq [of LOCAL demo_predicates "demo_weighter []" "[demo_mixed_beam]"]
    by (simp add: build_demo_predicates LOCAL_neq_GLOBAL)
  have len: "length (get_beams (exploration_policy ?D True) [demo_example] False) = length [demo_example]"
    by (simp add: exploration_policy_def demo_decoder_def demo_policy_def)
  have "predictions ?D [demo_example] True False =
          map get_terminated (get_beams (if True then train_exploration_policy ?D
             else test_exploration_policy ?D) [demo_example] False)"
    using predictions_terminated [of ?D "[demo_example]" True False] by blast
  then have "predictions ?D [demo_example] True False = [[demo_path [''go''] [1] 0]]"
    by (simp add: demo_decoder_def demo_policy_def get_terminated_def demo_mixed_beam_def demo_path_def)
  then show ?thesis using ini len by simp
qed

subsection \<open>Grouping of the score breakdown\<close>

lemma flatten_paths_snoc:
  "flatten_paths (ps @ [p]) =
     (fst (flatten_paths ps) @ [length (snd (flatten_paths ps) @ path_cases p)],
      snd (flatten_paths ps) @ path_cases p)"
  by (simp add: flatten_paths_def Let_def split: prod.splits)

lemma flatten_paths_eq:
  "flatten_paths ps = (map (boundary ps) [0..<Suc (length ps)], concat (map path_cases ps))"
proof (induction ps rule: rev_induct)
  case Nil
  then show ?case by (simp add: flatten_paths_def boundary_def)
next
  case (snoc p ps)
  have "map (boundary (ps @ [p])) [0..<Suc (length ps)] = map (boundary ps) [0..<Suc (length ps)]"
    by (rule map_cong) (auto simp: boundary_def)
  moreover have "boundary (ps @ [p]) (Suc (length ps)) =
                   length (concat (map path_cases ps) @ path_cases p)"
    by (simp add: boundary_def)
  ultimately show ?case
    by (simp add: flatten_paths_snoc snoc.IH)
qed

lemma boundary_Suc:
  "i < length ps \<Longrightarrow> boundary ps (Suc i) = boundary ps i + length (path_cases (ps ! i))"
  by (simp add: boundary_def take_Suc_conv_app_nth)

lemma boundary_mono: "i \<le> length ps \<Longrightarrow> boundary ps i \<le> boundary ps (length ps)"
proof -
  assume "i \<le> length ps"
  have "ps = take i ps @ drop i ps" by simp
  then have "concat (map path_cases ps) =
               concat (map path_cases (take i ps)) @ concat (map path_cases (drop i ps))"
    by (metis concat_append map_append)
  then show ?thesis by (simp add: boundary_def)
qed

lemma take_append_slice: "a \<le> b \<Longrightarrow> take a xs @ py_slice xs a b = take b xs"
proof -
  assume "a \<le> b"
  then have "take a xs = take a (take b xs)" by (simp add: min_def)
  then show ?thesis unfolding py_slice_def by (metis append_take_drop_id)
qed

lemma concat_slices:
  "n \<le> length ps \<Longrightarrow>
   concat (map (\<lambda>i. py_slice xs (boundary ps i) (boundary ps (i + 1))) [0..<n]) =
     take (boundary ps n) xs"
proof (induction n)
  case 0
  then show ?case by (simp add: boundary_def)
next
  case (Suc n)
  then have "boundary ps n \<le> boundary ps (Suc n)" by (simp add: boundary_Suc)
  then show ?case using Suc by (simp add: take_append_slice)
qed

lemma length_slice:
  assumes "i < length ps" and "boundary ps (length ps) \<le> length xs"
  shows "length (py_slice xs (boundary ps i) (boundary ps (Suc i))) = length (path_cases (ps ! i))"
proof -
  have "boundary ps (Suc i) \<le> length xs"
    using boundary_mono [of "Suc i" ps] assms by simp
  then show ?thesis using assms(1) by (simp add: py_slice_def boundary_Suc)
qed

lemma score_breakdown_demo: "score_breakdown (demo_decoder LOCAL demo_predicates (demo_weighter []) []) demo_three_paths
  = Inr ([[[1], [2], [3]], [], [[4], [5]]], [[[[1]], [[2]], [[3]]], [], [[[4]], [[5]]]])"
  by (simp add: score_breakdown_def flatten_paths_def demo_three_paths_def demo_path_def demo_decoder_def
      demo_parse_model_def py_slice_def upt_rec numeral_2_eq_2 Let_def)

text \<open>
  Claim C6. When the scoring model returns at least one attention row and one subscore
  row per case, \<open>score_breakdown\<close> returns one group per path, in the order of the paths;
  the i-th group has as many rows as the i-th path has cases, and the groups are
  consecutive pieces of the model's rows. For the empty list of paths it returns the pair
  of two empty lists, without consulting the model.
\<close>

theorem score_breakdown_groups:
  assumes "parse_model d = Some pm"
    and "pm_score_breakdown pm (concat (map path_cases paths)) False False = (attentions, subscores)"
    and "length (concat (map path_cases paths)) \<le> length attentions"
    and "length (concat (map path_cases paths)) \<le> length subscores"
  shows "(\<exists>ga gs. score_breakdown d paths = Inr (ga, gs)
            \<and> length ga = length paths \<and> length gs = length paths
            \<and> (\<forall>i < length paths. length (ga ! i) = length (path_cases (paths ! i))
                                  \<and> length (gs ! i) = length (path_cases (paths ! i)))
            \<and> concat ga = take (length (concat (map path_cases paths))) attentions
            \<and> concat gs = take (length (concat (map path_cases paths))) subscores)
       \<and> score_breakdown d0 [] = Inr ([], [])"
proof (rule conjI)
  show "score_breakdown d0 [] = Inr ([], [])" by (simp add: score_breakdown_def)
next
  let ?n = "length paths"
  let ?ga = "map (\<lambda>i. py_slice attentions (boundary paths i) (boundary paths (i + 1))) [0..<?n]"
  let ?gs = "map (\<lambda>i. py_slice subscores (boundary paths i) (boundary paths (i + 1))) [0..<?n]"
  have tot: "boundary paths ?n = length (concat (map path_cases paths))"
    by (simp add: boundary_def)
  have nth: "map (boundary paths) [0..<Suc ?n] ! i = boundary paths i" if "i \<le> ?n" for i
    using that nth_map_upt [of i "Suc ?n" 0 "boundary paths"] by simp
  have eq: "score_breakdown d paths = Inr (?ga, ?gs)"
  proof (cases "paths = []")
    case True
    then show ?thesis by (simp add: score_breakdown_def)
  next
    case False
    have "map (\<lambda>i. py_slice xs (map (boundary paths) [0..<Suc ?n] ! i)
                      (map (boundary paths) [0..<Suc ?n] ! (i + 1))) [0..<?n] =
          map (\<lambda>i. py_slice xs (boundary paths i) (boundary paths (i + 1))) [0..<?n]" for xs :: "'z list"
      by (rule map_cong) (simp_all add: nth del: upt_Suc)
    then show ?thesis
      using False assms(1,2)
      by (simp add: score_breakdown_def flatten_paths_eq Let_def del: upt_Suc)
  qed
  have lens: "\<forall>i < ?n. length (?ga ! i) = length (path_cases (paths ! i))
                      \<and> length (?gs ! i) = length (path_cases (paths ! i))"
    using assms(3,4) tot by (simp add: length_slice)
  have ca: "concat ?ga = take (length (concat (map path_cases paths))) attentions"
    using concat_slices [of ?n paths attentions] tot by simp
  have cs: "concat ?gs = take (length (concat (map path_cases paths))) subscores"
    using concat_slices [of ?n paths subscores] tot by simp
  show "\<exists>ga gs. score_breakdown d paths = Inr (ga, gs)
            \<and> length ga = length paths \<and> length gs = length paths
            \<and> (\<forall>i < length paths. length (ga ! i) = length (path_cases (paths ! i))
                                  \<and> length (gs ! i) = length (path_cases (paths ! i)))
            \<and> concat ga = take (length (concat (map path_cases paths))) attentions
            \<and> concat gs = take (length (concat (map path_cases paths))) subscores"
    using eq lens ca cs by (intro exI [of _ ?ga] exI [of _ ?gs]) simp
qed

theorem score_breakdown_groups_witness:
  "parse_model (demo_decoder LOCAL demo_predicates (demo_weighter []) []) = Some demo_parse_model
   \<and> pm_score_breakdown demo_parse_model (concat (map path_cases demo_three_paths)) False False =
       ([[1], [2], [3], [4], [5]], [[[1]], [[2]], [[3]], [[4]], [[5]]])
   \<and> length (concat (map path_cases demo_three_paths)) \<le> length [[1], [2], [3], [4], [5::real]]
   \<and> score_breakdown (demo_decoder LOCAL demo_predicates (demo_weighter []) []) demo_three_paths =
       Inr ([[[1], [2], [3]], [], [[4], [5]]], [[[[1]], [[2]], [[3]]], [], [[[4]], [[5]]]])
   \<and> map length [[[1], [2], [3]], [], [[4], [5::real]]] = [3, 0, 2]"
proof -
  let ?D = "demo_decoder LOCAL demo_predicates (demo_weighter []) []"
  have h1: "parse_model ?D = Some demo_parse_model" by (simp add: demo_decoder_def)
  have h2: "pm_score_breakdown demo_parse_model (concat (map path_cases demo_three_paths)) False False =
       ([[1], [2], [3], [4], [5]], [[[1]], [[2]], [[3]], [[4]], [[5]]])"
    by (simp add: demo_parse_model_def demo_three_paths_def demo_path_def)
  have h3: "length (concat (map path_cases demo_three_paths)) \<le> length [[1], [2], [3], [4], [5::real]]"
    by (simp add: demo_three_paths_def demo_path_def)
  have h4: "length (concat (map path_cases demo_three_paths)) \<le>
              length [[[1]], [[2]], [[3]], [[4]], [[5::real]]]"
    by (simp add: demo_three_paths_def demo_path_def)
  obtain ga gs where g: "score_breakdown ?D demo_three_paths = Inr (ga, gs)"
      "length ga = length demo_three_paths"
    using score_breakdown_groups [OF h1 h2 h3 h4] by blast
  have m: "map length [[[1], [2], [3]], [], [[4], [5::real]]] = [3, 0, 2]" by simp
  show ?thesis using g(1) h1 h2 h3 score_breakdown_demo m by blast
qed

subsection \<open>The auxiliary batch preparation\<close>

lemma tdb_path_step_field:
  assumes "\<And>g d. f (correct_predictions_update g d) = f d"
    and "\<And>g d. f (all_predictions_update g d) = f d"
  shows "f (fst (tdb_path_step col ex ue s w x (d, st, c0, ix))) = f d"
  by (cases x) (simp add: tdb_path_step_def Let_def assms)

lemma fold_path_step_field:
  assumes "\<And>g d. f (correct_predictions_update g d) = f d"
    and "\<And>g d. f (all_predictions_update g d) = f d"
  shows "f (fst (fold (tdb_path_step col ex ue s w) xs acc)) = f (fst acc)"
proof (induction xs arbitrary: acc)
  case Nil
  show ?case by simp
next
  case (Cons x xs)
  obtain d st c0 ix where acc: "acc = (d, st, c0, ix)" by (cases acc) auto
  have "f (fst (tdb_path_step col ex ue s w x acc)) = f (fst acc)"
    unfolding acc using tdb_path_step_field [of f col ex ue s w x d st c0 ix] assms by simp
  then show ?case using Cons [of "tdb_path_step col ex ue s w x acc"] by simp
qed

lemma tdb_loop_field:
  assumes "\<And>g d. f (correct_predictions_update g d) = f d"
    and "\<And>g d. f (all_predictions_update g d) = f d"
  shows "f (snd (tdb_loop col zs (d, st))) = f d"
proof (induction zs arbitrary: d st)
  case Nil
  show ?case by simp
next
  case (Cons z zs)
  obtain ex beam where z: "z = (ex, beam)" by (cases z) auto
  show ?case
  proof (cases beam)
    case Nil
    then show ?thesis using Cons z by simp
  next
    case (Cons path0 rest)
    note b = Cons
    show ?thesis
    proof (cases "embed_tokens (glove_embeddings d)
                    (concat (map tokens (utterances (path_context path0)))) ([], [])")
      case (Inl e)
      then show ?thesis using z b by simp
    next
      case (Inr r)
      note emb = Inr
      obtain ue s where r: "r = (ue, s)" by (cases r) auto
      show ?thesis
      proof (cases "pad_utterance (utter_len d) ue")
        case (Inl e)
        then show ?thesis using z b emb r by simp
      next
        case (Inr ue')
        let ?w = "world_state_str (all_objects (initial_state (world (ex_context ex))))"
        let ?acc = "fold (tdb_path_step col ex ue' s ?w) (enumerate 0 beam) (d, st, [], [])"
        obtain d1 st1 c1 ix1 where acc: "?acc = (d1, st1, c1, ix1)" by (cases ?acc) auto
        have c: "f d1 = f d"
          using fold_path_step_field [of f col ex ue' s ?w "enumerate 0 beam" "(d, st, [], [])"]
            assms acc by simp
        have "tdb_loop col (z # zs) (d, st) =
                tdb_loop col zs (d1, st1\<lparr>beam_batch_correct := Some (c1, [])\<rparr>)"
          using z b emb r Inr acc by (simp add: Let_def)
        then show ?thesis
          using c Cons.IH [of d1 "st1\<lparr>beam_batch_correct := Some (c1, [])\<rparr>"] by simp
      qed
    qed
  qed
qed

lemma tdb_field:
  assumes "\<And>g d. f (correct_predictions_update g d) = f d"
    and "\<And>g d. f (all_predictions_update g d) = f d"
  shows "f (snd (train_decomposable_batches col d beams examples)) =
           f (d\<lparr>train_step_count := train_step_count d + 1\<rparr>)"
proof -
  let ?d = "d\<lparr>train_step_count := train_step_count d + 1\<rparr>"
  obtain r d' where l: "tdb_loop col (zip examples beams) (?d, tdb_init) = (r, d')"
    by (cases "tdb_loop col (zip examples beams) (?d, tdb_init)") auto
  have "f d' = f ?d"
    using tdb_loop_field [of f col "zip examples beams" ?d tdb_init] assms l by simp
  then show ?thesis
    using l by (cases r) (simp_all add: train_decomposable_batches_def Let_def split: option.splits)
qed

lemma tdb_loop_all_empty:
  "\<forall>(example, beam) \<in> set zs. beam = [] \<Longrightarrow> tdb_loop col zs (d, st) = (Inr st, d)"
  by (induction zs) auto

text \<open>The step counter starts at 0 (\<open>init_fields\<close>) and every call of the batch
  preparation, failed or not, adds 1 to it; nothing decrements it.\<close>

lemma tdb_step_count:
  "train_step_count (snd (train_decomposable_batches col d beams examples)) = train_step_count d + 1"
  using tdb_field [of train_step_count col d beams examples] by simp

lemma train_step_step_count:
  "train_step_count (fst (snd (train_step col d examples))) = train_step_count d + 1"
proof -
  let ?t = "train_decomposable_batches col d (predictions d examples True False) examples"
  obtain r1 d1 where t: "?t = (r1, d1)" by (cases ?t) auto
  have c: "train_step_count d1 = train_step_count d + 1"
    using tdb_step_count [of col d "predictions d examples True False" examples] t by simp
  show ?thesis
    using t c
    by (cases r1) (auto simp: train_step_def Let_def split: sum.splits option.splits prod.splits)
qed

text \<open>
  Claim C10. When every beam paired with an example is empty (in particular for the empty
  batch), \<open>train_decomposable_batches\<close> raises \<open>UnboundLocalError\<close> for
  \<open>beam_batch_correct\<close>, and the decoder it leaves behind has \<open>_train_step_count\<close>
  incremented: the failed call has changed the state. The step counter of a decoder is
  never negative (it starts at 0 and is only incremented).
\<close>

theorem tdb_unbound_local:
  assumes "\<forall>(example, beam) \<in> set (zip examples beams). beam = []"
    and "0 \<le> train_step_count d"
  shows "train_decomposable_batches col d beams examples =
           (Inl (UnboundLocalError ''beam_batch_correct''),
            d\<lparr>train_step_count := train_step_count d + 1\<rparr>)
       \<and> train_step_count (snd (train_decomposable_batches col d beams examples)) =
           train_step_count d + 1
       \<and> snd (train_decomposable_batches col d beams examples) \<noteq> d"
proof -
  let ?d = "d\<lparr>train_step_count := train_step_count d + 1\<rparr>"
  have "tdb_loop col (zip examples beams) (?d, tdb_init) = (Inr tdb_init, ?d)"
    by (rule tdb_loop_all_empty [OF assms(1)])
  then have eq: "train_decomposable_batches col d beams examples =
           (Inl (UnboundLocalError ''beam_batch_correct''), ?d)"
    using assms(2) by (simp add: train_decomposable_batches_def Let_def tdb_init_def)
  have ne: "?d \<noteq> d"
  proof
    assume "?d = d"
    then have "train_step_count ?d = train_step_count d" by (rule arg_cong)
    then show False by simp
  qed
  show ?thesis unfolding eq using ne by simp
qed

theorem tdb_unbound_local_witness:
  "train_decomposable_batches (demo_collaborators (demo_weighter []) [[]])
     (demo_decoder LOCAL demo_predicates (demo_weighter []) [[]]) [[]] [demo_example] =
     (Inl (UnboundLocalError ''beam_batch_correct''),
      (demo_decoder LOCAL demo_predicates (demo_weighter []) [[]])\<lparr>train_step_count := 1\<rparr>)
   \<and> train_decomposable_batches (demo_collaborators (demo_weighter []) [[]])
     (demo_decoder LOCAL demo_predicates (demo_weighter []) [[]]) [] [] =
     (Inl (UnboundLocalError ''beam_batch_correct''),
      (demo_decoder LOCAL demo_predicates (demo_weighter []) [[]])\<lparr>train_step_count := 1\<rparr>)"
proof -
  let ?D = "demo_decoder LOCAL demo_predicates (demo_weighter []) [[]]"
  let ?C = "demo_collaborators (demo_weighter []) [[]]"
  have c: "train_step_count ?D = 0" by (simp add: demo_decoder_def)
  have c0: "0 \<le> train_step_count ?D" using c by simp
  have a: "\<forall>(example, beam) \<in> set (zip [demo_example] [[]::(nat, nat) beam]). beam = []" by simp
  have b: "\<forall>(example, beam) \<in> set (zip ([]::nat example list) ([]::(nat, nat) beam list)). beam = []"
    by simp
  have r1: "train_decomposable_batches ?C ?D [[]] [demo_example] =
           (Inl (UnboundLocalError ''beam_batch_correct''),
            ?D\<lparr>train_step_count := train_step_count ?D + 1\<rparr>)"
    using tdb_unbound_local [OF a c0, of ?C] by (rule conjunct1)
  have r2: "train_decomposable_batches ?C ?D [] [] =
           (Inl (UnboundLocalError ''beam_batch_correct''),
            ?D\<lparr>train_step_count := train_step_count ?D + 1\<rparr>)"
    using tdb_unbound_local [OF b c0, of ?C] by (rule conjunct1)
  show ?thesis using r1 r2 unfolding c by simp
qed

subsection \<open>The training step\<close>


lemma collect_cases_mismatch:
  "\<exists>z \<in> set zs. \<not> weights_match w z \<Longrightarrow> collect_cases (Some w) zs acc = Inl AssertionError"
proof (induction zs arbitrary: acc)
  case Nil
  then show ?case by simp
next
  case (Cons z zs)
  obtain ex ps where z: "z = (ex, ps)" by (cases z) auto
  obtain ac aw where acc: "acc = (ac, aw)" by (cases acc) auto
  show ?case
  proof (cases "weights_match w z")
    case True
    then have "\<exists>z \<in> set zs. \<not> weights_match w z" using Cons.prems by auto
    then have "collect_cases (Some w) zs (ac @ flatten (map path_cases ps), aw @ flatten (w ps ex))
                 = Inl AssertionError"
      by (rule Cons.IH)
    then show ?thesis using True by (simp add: z acc weights_match_def Let_def)
  next
    case False
    then show ?thesis by (simp add: z acc weights_match_def Let_def)
  qed
qed



lemma tdb_case_weighter:
  "train_decomposable_batches col d beams examples = (r, d') \<Longrightarrow> case_weighter d' = case_weighter d"
  using tdb_field [of case_weighter col d beams examples] by simp

lemma pad_go: "pad_utterance 2 [replicate 100 0] = Inr [replicate 100 0, replicate 100 0]"
  by (simp add: pad_utterance_def)

lemma demo_tdb:
  "train_decomposable_batches (demo_collaborators w bs) (demo_decoder LOCAL preds w bs)
     [[demo_path [''go''] cs s]] [demo_example] =
     (Inr (Some [(''go '', '' walk'', 1)]),
      (demo_decoder LOCAL preds w bs)
        \<lparr>train_step_count := 1, correct_predictions := 1, all_predictions := 1\<rparr>)"
  by (simp add: train_decomposable_batches_def tdb_init_def demo_decoder_def
      demo_path_def demo_context_def demo_glove_def demo_example_def demo_collaborators_def
      pad_go tdb_path_step_def Let_def)

lemma demo_predictions:
  "predictions (demo_decoder nrm preds w [[demo_path toks cs s]]) examples True False =
     [[demo_path toks cs s]]"
  by (simp add: predictions_def exploration_policy_def demo_decoder_def demo_policy_def
      get_terminated_def demo_path_def)

text \<open>
  Claim C1. The case weighter is called after the auxiliary batch preparation has
  returned (its result is stored first). If then, for some example, the flattened weights
  it returns differ in number from the cases of that example's beam, \<open>train_step\<close> raises
  \<open>AssertionError\<close>, and no update of the value function or of the scoring model has been
  issued: the trace of updates is empty.
\<close>

theorem train_step_assertion:
  assumes "train_decomposable_batches col d (predictions d examples True False) examples = (Inr data, d')"
    and "case_weighter d = Some w"
    and "\<exists>(example, paths) \<in> set (zip examples (predictions d examples True False)).
           length (flatten (w paths example)) \<noteq> sum_list (map (\<lambda>p. length (path_cases p)) paths)"
  shows "train_step col d examples = (Inl AssertionError, d'\<lparr>decomposable_data := data\<rparr>, [])"
proof -
  have cw: "case_weighter d' = Some w"
    using tdb_case_weighter [OF assms(1)] assms(2) by simp
  obtain ex ps where z: "(ex, ps) \<in> set (zip examples (predictions d examples True False))"
      "length (flatten (w ps ex)) \<noteq> sum_list (map (\<lambda>p. length (path_cases p)) ps)"
    using assms(3) by auto
  have "\<not> weights_match w (ex, ps)" using z(2) by (simp add: weights_match_def)
  with z(1) have "\<exists>z \<in> set (zip examples (predictions d examples True False)). \<not> weights_match w z"
    by (rule rev_bexI)
  then have "collect_cases (Some w) (zip examples (predictions d examples True False)) ([], [])
               = Inl AssertionError"
    by (rule collect_cases_mismatch)
  then show ?thesis
    using assms(1) cw by (simp add: train_step_def Let_def)
qed

theorem train_step_assertion_witness:
  "train_decomposable_batches (demo_collaborators (demo_weighter []) [[demo_path [''go''] [7] 0]])
     (demo_decoder LOCAL demo_predicates (demo_weighter []) [[demo_path [''go''] [7] 0]])
     (predictions (demo_decoder LOCAL demo_predicates (demo_weighter []) [[demo_path [''go''] [7] 0]])
        [demo_example] True False) [demo_example] =
     (Inr (Some [(''go '', '' walk'', 1)]),
      (demo_decoder LOCAL demo_predicates (demo_weighter []) [[demo_path [''go''] [7] 0]])
        \<lparr>train_step_count := 1, correct_predictions := 1, all_predictions := 1\<rparr>)
   \<and> case_weighter (demo_decoder LOCAL demo_predicates (demo_weighter []) [[demo_path [''go''] [7] 0]])
       = Some (demo_weighter [])
   \<and> length (flatten (demo_weighter [] [demo_path [''go''] [7] 0] demo_example)) \<noteq>
       length (path_cases (demo_path [''go''] [7] 0))
   \<and> train_step (demo_collaborators (demo_weighter []) [[demo_path [''go''] [7] 0]])
       (demo_decoder LOCAL demo_predicates (demo_weighter []) [[demo_path [''go''] [7] 0]])
       [demo_example] =
     (Inl AssertionError,
      (demo_decoder LOCAL demo_predicates (demo_weighter []) [[demo_path [''go''] [7] 0]])
        \<lparr>train_step_count := 1, correct_predictions := 1, all_predictions := 1,
         decomposable_data := Some [(''go '', '' walk'', 1)]\<rparr>,
      [])"
proof -
  let ?B = "[demo_path [''go''] [7] 0]"
  let ?D = "demo_decoder LOCAL demo_predicates (demo_weighter []) [?B]"
  let ?C = "demo_collaborators (demo_weighter []) [?B]"
  have p: "predictions ?D [demo_example] True False = [?B]" by (rule demo_predictions)
  have h1: "train_decomposable_batches ?C ?D (predictions ?D [demo_example] True False) [demo_example] =
     (Inr (Some [(''go '', '' walk'', 1)]),
      ?D\<lparr>train_step_count := 1, correct_predictions := 1, all_predictions := 1\<rparr>)"
    unfolding p by (rule demo_tdb)
  have h2: "case_weighter ?D = Some (demo_weighter [])" by (simp add: demo_decoder_def)
  have m: "length (flatten (demo_weighter [] ?B demo_example)) \<noteq> length (path_cases (demo_path [''go''] [7] 0))"
    by (simp add: flatten_def demo_weighter_def demo_path_def)
  have h3: "\<exists>(example, paths) \<in> set (zip [demo_example] (predictions ?D [demo_example] True False)).
           length (flatten (demo_weighter [] paths example)) \<noteq>
             sum_list (map (\<lambda>p. length (path_cases p)) paths)"
    unfolding p using m by simp
  show ?thesis using train_step_assertion [OF h1 h2 h3] h1 h2 m by simp
qed

text \<open>When the batch preparation itself raises, the case weighter is never called and
  the error of the preparation is the result, again without any update: here a token has
  no embedding.\<close>

lemma train_step_batch_preparation_first:
  "predictions (demo_decoder LOCAL demo_predicates (demo_weighter []) [[demo_path [''jump''] [7] 0]])
        [demo_example] True False = [[demo_path [''jump''] [7] 0]]
   \<and> length (flatten (demo_weighter [] [demo_path [''jump''] [7] 0] demo_example)) \<noteq>
       length (path_cases (demo_path [''jump''] [7] 0))
   \<and> train_step (demo_collaborators (demo_weighter []) [[demo_path [''jump''] [7] 0]])
       (demo_decoder LOCAL demo_predicates (demo_weighter []) [[demo_path [''jump''] [7] 0]])
       [demo_example] =
     (Inl (KeyError ''jump''),
      (demo_decoder LOCAL demo_predicates (demo_weighter []) [[demo_path [''jump''] [7] 0]])
        \<lparr>train_step_count := 1\<rparr>,
      [])
   \<and> Inl (KeyError ''jump'') \<noteq> (Inl AssertionError :: error + unit)"
proof -
  let ?B = "[demo_path [''jump''] [7] 0]"
  let ?D = "demo_decoder LOCAL demo_predicates (demo_weighter []) [?B]"
  let ?C = "demo_collaborators (demo_weighter []) [?B]"
  have p: "predictions ?D [demo_example] True False = [?B]" by (rule demo_predictions)
  have t: "train_decomposable_batches ?C ?D [?B] [demo_example] =
             (Inl (KeyError ''jump''), ?D\<lparr>train_step_count := 1\<rparr>)"
    by (simp add: train_decomposable_batches_def tdb_init_def demo_decoder_def
      demo_path_def demo_context_def demo_glove_def Let_def)
  have m: "length (flatten (demo_weighter [] ?B demo_example)) \<noteq> length (path_cases (demo_path [''jump''] [7] 0))"
    by (simp add: flatten_def demo_weighter_def demo_path_def)
  have "train_step ?C ?D [demo_example] = (Inl (KeyError ''jump''), ?D\<lparr>train_step_count := 1\<rparr>, [])"
    by (simp add: train_step_def p t)
  then show ?thesis using p m by simp
qed



end
